theory Spec2Isabelle
  imports Main
begin

unbundle bit_operations_syntax

section \<open>Values, objects and the runtime\<close>

text \<open>
  The handles that \<^verbatim>\<open>process._getActiveHandles()\<close> returns are ordinary
  JavaScript objects that refer to each other (\<^verbatim>\<open>_idleNext\<close>, \<^verbatim>\<open>_handle\<close>)
  and to callbacks.  Objects and functions are compared by identity
  (\<^verbatim>\<open>indexOf\<close> uses strict equality), so both are references: an object is
  an address into the heap and a function is an identifier into the
  reflection tables of the runtime.  Numbers are integers here;
  fractional timeouts play no part in what is verified.
\<close>

datatype jsval =
    VUndefined
  | VNull
  | VBool bool
  | VNum int
  | VStr string
  | VFun nat
  | VObj nat

text \<open>
  An object is the list of its own enumerable properties, in the order in
  which \<^verbatim>\<open>Object.keys\<close> lists them.
\<close>

type_synonym obj = "(string \<times> jsval) list"

text \<open>
  \<^verbatim>\<open>{ file, line, column, inferredName }\<close>, the result of
  \<^verbatim>\<open>function-origin\<close> (the field \<^verbatim>\<open>file\<close> is \<open>file_name\<close> here).
\<close>

record location =
  file_name :: string
  line :: int
  column :: int
  inferredName :: string

text \<open>
  What the code reads from its surroundings: the heap of objects, the
  reflection data of each function (\<^verbatim>\<open>fn.name\<close>, \<^verbatim>\<open>fn.toString()\<close>,
  \<^verbatim>\<open>getFunctionLocation(fn)\<close>, which is falsy when the runtime has no
  location) and the source renderer \<^verbatim>\<open>cardinal.highlight\<close>, which may
  throw (\<open>None\<close>).
\<close>

record runtime =
  heap :: "obj list"
  fnName :: "nat \<Rightarrow> string"
  fnToString :: "nat \<Rightarrow> string"
  getFunctionLocation :: "nat \<Rightarrow> location option"
  cardinal_highlight :: "string \<Rightarrow> string option"

datatype error = TypeError

text \<open>The truthiness of a value (\<^verbatim>\<open>!!x\<close>).\<close>

fun truthy :: "jsval \<Rightarrow> bool" where
  "truthy VUndefined = False"
| "truthy VNull = False"
| "truthy (VBool b) = b"
| "truthy (VNum n) = (n \<noteq> 0)"
| "truthy (VStr s) = (s \<noteq> [])"
| "truthy (VFun f) = True"
| "truthy (VObj a) = True"

text \<open>
  The own properties of a value.  Primitives and functions carry none of the
  properties the code asks for; an address outside the heap does not occur in
  a running program and reads as an object without properties.
\<close>

fun props :: "runtime \<Rightarrow> jsval \<Rightarrow> obj" where
  "props rt (VObj a) = (if a < length (heap rt) then heap rt ! a else [])"
| "props rt v = []"

text \<open>\<^verbatim>\<open>x[key]\<close> on a value that is neither \<^verbatim>\<open>undefined\<close> nor \<^verbatim>\<open>null\<close>.\<close>

definition getprop :: "runtime \<Rightarrow> jsval \<Rightarrow> string \<Rightarrow> jsval" where
  "getprop rt x key = (case map_of (props rt x) key of None \<Rightarrow> VUndefined | Some v \<Rightarrow> v)"

definition hasOwnProperty :: "runtime \<Rightarrow> jsval \<Rightarrow> string \<Rightarrow> bool" where
  "hasOwnProperty rt x key = (key \<in> fst ` set (props rt x))"

text \<open>\<^verbatim>\<open>Object.keys(x)\<close>.\<close>

definition keys :: "runtime \<Rightarrow> jsval \<Rightarrow> string list" where
  "keys rt x = map fst (props rt x)"

fun isFunction :: "jsval \<Rightarrow> bool" where
  "isFunction (VFun f) = True"
| "isFunction v = False"

text \<open>
  \<^verbatim>\<open>xs.indexOf(x)\<close>: the first index of \<open>x\<close>, or \<open>-1\<close>.
\<close>

fun indexOf :: "'a list \<Rightarrow> 'a \<Rightarrow> int" where
  "indexOf [] x = - 1"
| "indexOf (y # ys) x =
     (if y = x then 0 else (let i = indexOf ys x in if i < 0 then - 1 else i + 1))"

section \<open>Function identity: \<^verbatim>\<open>highlightSource\<close> and \<^verbatim>\<open>functionInfo\<close>\<close>

text \<open>
  \<^verbatim>\<open>try { return cardinal.highlight(s, { lineno: true }) } catch (e) { return s }\<close>
\<close>

definition highlightSource :: "runtime \<Rightarrow> string \<Rightarrow> string" where
  "highlightSource rt s = (case cardinal_highlight rt s of Some t \<Rightarrow> t | None \<Rightarrow> s)"

text \<open>
  The object that \<^verbatim>\<open>functionInfo\<close> returns, with the three properties
  \<^verbatim>\<open>msecs\<close>, \<^verbatim>\<open>type\<close> and \<^verbatim>\<open>fd\<close> that \<^verbatim>\<open>resolveHandle\<close> adds
  to it afterwards (\<open>None\<close> while a property is absent).
\<close>

record info =
  fn :: jsval
  name :: string
  source :: string
  highlighted :: string
  location :: "location option"
  handle :: jsval
  msecs :: "jsval option"
  type :: "string option"
  fd :: "jsval option"

text \<open>
  \<^verbatim>\<open>functionInfo(fn, handle)\<close>.  On a function it follows the source line
  by line; \<^verbatim>\<open>location.inferredName\<close> on a missing location is a
  \<^verbatim>\<open>TypeError\<close>.  On \<^verbatim>\<open>undefined\<close> and \<^verbatim>\<open>null\<close> the first
  statement, \<^verbatim>\<open>fn.toString()\<close>, is a \<^verbatim>\<open>TypeError\<close>.  Any other value
  that is not a function is handed to the native binding of
  \<^verbatim>\<open>function-origin\<close>, which is defined on functions only; the model
  counts that as an abnormal end as well.
\<close>

fun functionInfo :: "runtime \<Rightarrow> jsval \<Rightarrow> jsval \<Rightarrow> error + info" where
  "functionInfo rt (VFun f) hdl =
     (let src = fnToString rt f;
          loc = map_option (\<lambda>l. l\<lparr>line := line l + 1\<rparr>) (getFunctionLocation rt f)
      in if fnName rt f = [] then
           (case loc of
              None \<Rightarrow> Inl TypeError
            | Some l \<Rightarrow>
                (let nm = (if inferredName l \<noteq> [] then inferredName l
                           else ''__unknown_function_name__'')
                 in Inr \<lparr>fn = VFun f, name = nm, source = src,
                         highlighted = highlightSource rt (nm @ '' = '' @ src),
                         location = loc, handle = hdl,
                         msecs = None, type = None, fd = None\<rparr>))
         else Inr \<lparr>fn = VFun f, name = fnName rt f, source = src,
                   highlighted = highlightSource rt src,
                   location = loc, handle = hdl,
                   msecs = None, type = None, fd = None\<rparr>)"
| "functionInfo rt v hdl = Inl TypeError"

section \<open>One handle: \<^verbatim>\<open>resolveHandle\<close>\<close>

text \<open>
  The local variables of one call of \<^verbatim>\<open>resolveHandle\<close> that its inner
  functions share.  \<open>addInfo_type\<close> is the property \<^verbatim>\<open>type\<close> of the inner
  function \<^verbatim>\<open>addInfo\<close> itself, which the \<^verbatim>\<open>default\<close> branch of
  \<^verbatim>\<open>addHandleFn\<close> assigns.
\<close>

record state =
  visited :: "jsval list"
  resolvedFns :: "jsval list"
  resolved :: "info list"
  addInfo_type :: "string option"

definition init_state :: state where
  "init_state = \<lparr>visited = [], resolvedFns = [], resolved = [], addInfo_type = None\<rparr>"

text \<open>\<^verbatim>\<open>return ~visited.indexOf(h)\<close>, read as a condition.\<close>

definition wasVisited :: "state \<Rightarrow> jsval \<Rightarrow> bool" where
  "wasVisited st h = (NOT (indexOf (visited st) h) \<noteq> 0)"

text \<open>
  \<^verbatim>\<open>addInfo(fn)\<close>.  The object it returns is the one it has just pushed on
  \<^verbatim>\<open>resolved\<close>, and the callers go on to assign properties of that very
  object; the reference is its index in \<^verbatim>\<open>resolved\<close>.  \<open>None\<close> is the
  \<^verbatim>\<open>undefined\<close> of the bare \<^verbatim>\<open>return\<close>.  \<^verbatim>\<open>functionInfo\<close> is called
  with one argument, so that its \<^verbatim>\<open>handle\<close> is \<^verbatim>\<open>undefined\<close>.
\<close>

definition addInfo :: "runtime \<Rightarrow> state \<Rightarrow> jsval \<Rightarrow> error + (state \<times> nat option)" where
  "addInfo rt st f =
     (if NOT (indexOf (resolvedFns st) f) \<noteq> 0 then Inr (st, None)
      else
        (let st1 = st\<lparr>resolvedFns := resolvedFns st @ [f]\<rparr>
         in case functionInfo rt f VUndefined of
              Inl e \<Rightarrow> Inl e
            | Inr i \<Rightarrow> Inr (st1\<lparr>resolved := resolved st1 @ [i]\<rparr>, Some (length (resolved st1)))))"

text \<open>Assignments to a property of the entry that a reference denotes.\<close>

definition set_msecs :: "nat \<Rightarrow> jsval \<Rightarrow> state \<Rightarrow> state" where
  "set_msecs r v st = st\<lparr>resolved := (resolved st)[r := (resolved st ! r)\<lparr>msecs := Some v\<rparr>]\<rparr>"

definition set_type :: "nat \<Rightarrow> string \<Rightarrow> state \<Rightarrow> state" where
  "set_type r v st = st\<lparr>resolved := (resolved st)[r := (resolved st ! r)\<lparr>type := Some v\<rparr>]\<rparr>"

definition set_fd :: "nat \<Rightarrow> jsval \<Rightarrow> state \<Rightarrow> state" where
  "set_fd r v st = st\<lparr>resolved := (resolved st)[r := (resolved st ! r)\<lparr>fd := Some v\<rparr>]\<rparr>"

text \<open>
  The body of the \<^verbatim>\<open>for\<close> loop at the node \<open>next\<close>.  When \<^verbatim>\<open>addInfo\<close>
  has returned \<^verbatim>\<open>undefined\<close>, the assignment \<^verbatim>\<open>addedInfo.msecs = ...\<close> is a
  \<^verbatim>\<open>TypeError\<close>.
\<close>

definition idleBody :: "runtime \<Rightarrow> state \<Rightarrow> jsval \<Rightarrow> error + state" where
  "idleBody rt st next =
     (let st1 = st\<lparr>visited := visited st @ [next]\<rparr>;
          repeatIsFn = isFunction (getprop rt next ''_repeat'');
          hasWrappedCallback = isFunction (getprop rt next ''_wrappedCallback'')
      in if \<not> repeatIsFn \<and> \<not> hasWrappedCallback \<and> \<not> hasOwnProperty rt next ''_onTimeout''
         then Inr st1
         else
           (let f = (if repeatIsFn then getprop rt next ''_repeat''
                     else if hasWrappedCallback then getprop rt next ''_wrappedCallback''
                     else getprop rt next ''_onTimeout'')
            in case addInfo rt st1 f of
                 Inl e \<Rightarrow> Inl e
               | Inr (st2, None) \<Rightarrow> Inl TypeError
               | Inr (st2, Some addedInfo) \<Rightarrow>
                   Inr (set_type addedInfo
                          (if hasWrappedCallback \<or> repeatIsFn then ''setInterval'' else ''setTimeout'')
                          (set_msecs addedInfo (getprop rt next ''_idleTimeout'') st2))))"

text \<open>
  \<^verbatim>\<open>for (var next = handle._idleNext; !!next && !wasVisited(next); next = next._idleNext)\<close>.
  The loop is written as it stands, without a bound: \<open>None\<close> is a walk that
  never ends, \<open>Some (Inl e)\<close> one that an exception leaves.
\<close>

partial_function (option) idleLoop :: "runtime \<Rightarrow> state \<Rightarrow> jsval \<Rightarrow> (error + state) option" where
  "idleLoop rt st next =
     (if truthy next \<and> \<not> wasVisited st next then
        (case idleBody rt st next of
           Inl e \<Rightarrow> Some (Inl e)
         | Inr st' \<Rightarrow> idleLoop rt st' (getprop rt next ''_idleNext''))
      else Some (Inr st))"

declare idleLoop.simps [code]

text \<open>
  \<^verbatim>\<open>addHandleFn(key)\<close>, where \<open>hh\<close> is \<^verbatim>\<open>handle._handle\<close>.  With a truthy
  \<^verbatim>\<open>fd\<close> the assignment \<^verbatim>\<open>addedInfo.fd = ...\<close> is a \<^verbatim>\<open>TypeError\<close> when
  \<^verbatim>\<open>addInfo\<close> has returned \<^verbatim>\<open>undefined\<close>.  The \<^verbatim>\<open>default\<close> branch assigns
  \<^verbatim>\<open>addInfo.type\<close>, a property of the function \<^verbatim>\<open>addInfo\<close>.
\<close>

definition addHandleFn :: "runtime \<Rightarrow> jsval \<Rightarrow> state \<Rightarrow> string \<Rightarrow> error + state" where
  "addHandleFn rt hh st key =
     (let v = getprop rt hh key
      in if \<not> isFunction v then Inr st
         else
           (case addInfo rt st v of
              Inl e \<Rightarrow> Inl e
            | Inr (st1, addedInfo) \<Rightarrow>
                if truthy (getprop rt hh ''fd'') then
                  (case addedInfo of
                     None \<Rightarrow> Inl TypeError
                   | Some r \<Rightarrow>
                       (let st2 = set_fd r (getprop rt hh ''fd'') st1
                        in if key = ''onconnection'' then Inr (set_type r ''net connection'' st2)
                           else if key = ''onread'' then Inr (set_type r ''net client connection'' st2)
                           else Inr (st2\<lparr>addInfo_type := Some ''unknown''\<rparr>)))
                else Inr st1))"

text \<open>\<^verbatim>\<open>Object.keys(handle._handle).forEach(addHandleFn)\<close>: an exception ends it.\<close>

fun forEach_addHandleFn :: "runtime \<Rightarrow> jsval \<Rightarrow> state \<Rightarrow> string list \<Rightarrow> error + state" where
  "forEach_addHandleFn rt hh st [] = Inr st"
| "forEach_addHandleFn rt hh st (key # ks) =
     (case addHandleFn rt hh st key of
        Inl e \<Rightarrow> Inl e
      | Inr st' \<Rightarrow> forEach_addHandleFn rt hh st' ks)"

text \<open>
  \<^verbatim>\<open>resolveHandle(handle)\<close>.  Reading \<^verbatim>\<open>handle._idleNext\<close> off
  \<^verbatim>\<open>undefined\<close> or \<^verbatim>\<open>null\<close> is a \<^verbatim>\<open>TypeError\<close>.
\<close>

definition resolveHandle :: "runtime \<Rightarrow> jsval \<Rightarrow> (error + info list) option" where
  "resolveHandle rt hdl =
     (if hdl = VUndefined \<or> hdl = VNull then Some (Inl TypeError)
      else
        (case idleLoop rt init_state (getprop rt hdl ''_idleNext'') of
           None \<Rightarrow> None
         | Some (Inl e) \<Rightarrow> Some (Inl e)
         | Some (Inr st) \<Rightarrow>
             if truthy (getprop rt hdl ''_handle'') then
               (case forEach_addHandleFn rt (getprop rt hdl ''_handle'') st
                       (keys rt (getprop rt hdl ''_handle'')) of
                  Inl e \<Rightarrow> Some (Inl e)
                | Inr st' \<Rightarrow> Some (Inr (resolved st')))
             else Some (Inr (resolved st))))"

section \<open>All handles: \<^verbatim>\<open>resolveHandles\<close> and \<^verbatim>\<open>activeHandles\<close>\<close>

text \<open>\<^verbatim>\<open>resolvedHandles.push(h)\<close>.\<close>

definition pushHandle :: "info \<Rightarrow> info list \<Rightarrow> info list" where
  "pushHandle h resolvedHandles = resolvedHandles @ [h]"

text \<open>
  \<^verbatim>\<open>handles.forEach(resolveCurrentHandle)\<close> with the array
  \<^verbatim>\<open>resolvedHandles\<close> passed along.  Every call of \<^verbatim>\<open>resolveHandle\<close> starts
  from fresh \<^verbatim>\<open>visited\<close> and \<^verbatim>\<open>resolvedFns\<close>.
\<close>

fun forEach_resolveCurrentHandle ::
  "runtime \<Rightarrow> info list \<Rightarrow> jsval list \<Rightarrow> (error + info list) option" where
  "forEach_resolveCurrentHandle rt resolvedHandles [] = Some (Inr resolvedHandles)"
| "forEach_resolveCurrentHandle rt resolvedHandles (hdl # hs) =
     (case resolveHandle rt hdl of
        None \<Rightarrow> None
      | Some (Inl e) \<Rightarrow> Some (Inl e)
      | Some (Inr rs) \<Rightarrow> forEach_resolveCurrentHandle rt (fold pushHandle rs resolvedHandles) hs)"

definition resolveHandles :: "runtime \<Rightarrow> jsval list \<Rightarrow> (error + info list) option" where
  "resolveHandles rt handles = forEach_resolveCurrentHandle rt [] handles"

text \<open>
  \<^verbatim>\<open>activeHandles()\<close>, with the result of \<^verbatim>\<open>process._getActiveHandles()\<close>
  as its argument.
\<close>

definition activeHandles :: "runtime \<Rightarrow> jsval list \<Rightarrow> (error + info list) option" where
  "activeHandles rt handles =
     (if length handles = 0 then Some (Inr []) else resolveHandles rt handles)"

section \<open>The hook of \<^verbatim>\<open>setInterval\<close>\<close>

text \<open>\<^verbatim>\<open>s.split('.')\<close>.\<close>

fun split_dot :: "string \<Rightarrow> string list" where
  "split_dot [] = [[]]"
| "split_dot (c # cs) =
     (if c = CHR ''.'' then [] # split_dot cs
      else (case split_dot cs of [] \<Rightarrow> [[c]] | w # ws \<Rightarrow> (c # w) # ws))"

text \<open>
  The number that \<^verbatim>\<open><\<close> makes of a string operand, on the strings that the
  parts of \<^verbatim>\<open>process.version\<close> are: a run of decimal digits is its value,
  the empty string is \<open>0\<close>, and every other string is \<^verbatim>\<open>NaN\<close>
  (\<open>None\<close>).  The other numeric forms of JavaScript (white space, a sign, a
  radix prefix, an exponent, \<^verbatim>\<open>Infinity\<close>) do not occur in a version and
  are not modelled: on such a part, as in \<^verbatim>\<open>v1.6.-1\<close>, JavaScript compares
  a number where this definition has \<^verbatim>\<open>NaN\<close>.
\<close>

definition is_digit :: "char \<Rightarrow> bool" where
  "is_digit c = (48 \<le> (of_char c :: nat) \<and> (of_char c :: nat) \<le> 57)"

definition toNumber :: "string \<Rightarrow> int option" where
  "toNumber s =
     (if list_all is_digit s
      then Some (foldl (\<lambda>n c. 10 * n + (int (of_char c) - 48)) 0 s)
      else None)"

text \<open>\<^verbatim>\<open>s < n\<close> for a string \<open>s\<close> and a number \<open>n\<close>: false on \<^verbatim>\<open>NaN\<close>.\<close>

definition str_less_num :: "string \<Rightarrow> int \<Rightarrow> bool" where
  "str_less_num s n = (case toNumber s of None \<Rightarrow> False | Some m \<Rightarrow> m < n)"

definition versionGreaterEqualOneSixTwo :: "string \<Rightarrow> bool" where
  "versionGreaterEqualOneSixTwo v =
     (let digits = split_dot (drop 1 v)
      in if length digits \<noteq> 3 then False
         else if str_less_num (digits ! 0) 1 \<or> str_less_num (digits ! 1) 6
                 \<or> str_less_num (digits ! 2) 2 then False
         else True)"

text \<open>
  The value of \<^verbatim>\<open>timers.setInterval\<close>: the one the runtime ships, or
  \<^verbatim>\<open>setIntervalHook\<close> closed over the value it replaced.
\<close>

datatype setInterval_fn = Builtin | SetIntervalHook setInterval_fn

text \<open>
  \<^verbatim>\<open>hookSetInterval()\<close>, with \<^verbatim>\<open>process.version\<close> and the current
  \<^verbatim>\<open>timers.setInterval\<close> as arguments; it returns the new
  \<^verbatim>\<open>timers.setInterval\<close>.
\<close>

definition hookSetInterval :: "string \<Rightarrow> setInterval_fn \<Rightarrow> setInterval_fn" where
  "hookSetInterval version setInterval_orig =
     (if versionGreaterEqualOneSixTwo version then setInterval_orig
      else SetIntervalHook setInterval_orig)"

section \<open>The chain of a handle and the entries of its nodes\<close>







section \<open>Measuring the chain walk\<close>

text \<open>
  The heap addresses that the walk has not visited yet, and the quantity that
  every turn of the loop decreases.
\<close>

definition unvisited :: "runtime \<Rightarrow> state \<Rightarrow> nat set" where
  "unvisited rt st = {a. a < length (heap rt) \<and> VObj a \<notin> set (visited st)}"

definition walk_measure :: "runtime \<Rightarrow> state \<Rightarrow> jsval \<Rightarrow> nat" where
  "walk_measure rt st nxt =
     card (unvisited rt st) + (if truthy nxt \<and> nxt \<notin> set (visited st) then 1 else 0)"

text \<open>
  What an entry looks like that only the chain walk has touched: no
  descriptor, and a type that is absent or one of the two timer types.
\<close>

definition timer_entry :: "info \<Rightarrow> bool" where
  "timer_entry i \<longleftrightarrow>
     fd i = None \<and> (type i = None \<or> type i = Some ''setInterval'' \<or> type i = Some ''setTimeout'')"

section \<open>The documented threshold\<close>

text \<open>
  Following the words of the documentation rather than the code:
  \<^verbatim>\<open>io.js >=v1.6.2\<close>, in the order of versions, where the major number
  decides before the minor one and the minor one before the patch level.
\<close>

definition spec_version_at_least_1_6_2 :: "string \<Rightarrow> bool" where
  "spec_version_at_least_1_6_2 v =
     (case map toNumber (split_dot (drop 1 v)) of
        [Some major, Some minor, Some patch] \<Rightarrow>
          1 < major \<or> (major = 1 \<and> (6 < minor \<or> (minor = 6 \<and> 2 \<le> patch)))
      | _ \<Rightarrow> False)"

section \<open>Example heaps\<close>

text \<open>
  The reflection data of four functions: \<open>0\<close> is the declared function
  \<^verbatim>\<open>tick\<close>; \<open>1\<close> is an anonymous function assigned to
  \<^verbatim>\<open>onData\<close>; \<open>2\<close> is an anonymous function for which the runtime
  infers no name; \<open>3\<close> (and every other) is an anonymous function
  without a location.  The renderer of the examples fails on every text but
  the source of \<^verbatim>\<open>tick\<close>.
\<close>

definition example_fnName :: "nat \<Rightarrow> string" where
  "example_fnName f = (if f = 0 then ''tick'' else [])"

definition example_fnToString :: "nat \<Rightarrow> string" where
  "example_fnToString f = (if f = 0 then ''function tick() {}'' else ''function () {}'')"

definition example_location :: "nat \<Rightarrow> location option" where
  "example_location f =
     (if f = 0 then Some \<lparr>file_name = ''app.js'', line = 9, column = 9, inferredName = []\<rparr>
      else if f = 1 then Some \<lparr>file_name = ''app.js'', line = 3, column = 22, inferredName = ''onData''\<rparr>
      else if f = 2 then Some \<lparr>file_name = ''app.js'', line = 5, column = 11, inferredName = []\<rparr>
      else None)"

definition example_highlight :: "string \<Rightarrow> string option" where
  "example_highlight s =
     (if s = ''function tick() {}'' then Some ''1: function tick() {}'' else None)"

definition example_rt :: "obj list \<Rightarrow> runtime" where
  "example_rt h = \<lparr>heap = h, fnName = example_fnName, fnToString = example_fnToString,
                    getFunctionLocation = example_location,
                    cardinal_highlight = example_highlight\<rparr>"

text \<open>What \<^verbatim>\<open>functionInfo\<close> returns on the functions \<open>0\<close> and \<open>1\<close>.\<close>

definition tick_info :: info where
  "tick_info =
     \<lparr>fn = VFun 0, name = ''tick'', source = ''function tick() {}'',
      highlighted = ''1: function tick() {}'',
      location = Some \<lparr>file_name = ''app.js'', line = 10, column = 9, inferredName = []\<rparr>,
      handle = VUndefined, msecs = None, type = None, fd = None\<rparr>"

definition onData_info :: info where
  "onData_info =
     \<lparr>fn = VFun 1, name = ''onData'', source = ''function () {}'',
      highlighted = ''onData = function () {}'',
      location = Some \<lparr>file_name = ''app.js'', line = 4, column = 22, inferredName = ''onData''\<rparr>,
      handle = VUndefined, msecs = None, type = None, fd = None\<rparr>"

text \<open>
  Two intervals with the same callback and the same delay, in one timer list
  that starts at the handle (address 0).
\<close>

definition two_intervals_heap :: "obj list" where
  "two_intervals_heap =
     [[(''_idleNext'', VObj 1)],
      [(''_repeat'', VFun 0), (''_idleTimeout'', VNum 1000), (''_idleNext'', VObj 2)],
      [(''_repeat'', VFun 0), (''_idleTimeout'', VNum 1000)]]"

text \<open>
  A handle whose socket record, with descriptor \<open>d\<close>, holds one callback
  under two keys.
\<close>

definition two_fields_heap :: "jsval \<Rightarrow> obj list" where
  "two_fields_heap d =
     [[(''_handle'', VObj 1)],
      [(''fd'', d), (''onread'', VFun 0), (''onend'', VFun 0)]]"

text \<open>A handle whose chain has one node, with \<open>cb\<close> as its \<^verbatim>\<open>_onTimeout\<close>.\<close>

definition no_location_heap :: "jsval \<Rightarrow> obj list" where
  "no_location_heap cb =
     [[(''_idleNext'', VObj 1)],
      [(''_onTimeout'', cb), (''_idleTimeout'', VNum 50)]]"

text \<open>
  A handle whose socket record, with descriptor \<open>d\<close>, holds
  \<^verbatim>\<open>tick\<close> under the key \<open>key\<close>.
\<close>

definition one_field_heap :: "jsval \<Rightarrow> string \<Rightarrow> obj list" where
  "one_field_heap d key =
     [[(''_handle'', VObj 1)],
      [(''fd'', d), (key, VFun 0)]]"


text \<open>
  Two handles (addresses 0 and 2), each with a chain of one interval timer;
  both timers repeat the same function.
\<close>

definition two_handles_heap :: "obj list" where
  "two_handles_heap =
     [[(''_idleNext'', VObj 1)],
      [(''_repeat'', VFun 0), (''_idleTimeout'', VNum 1000)],
      [(''_idleNext'', VObj 3)],
      [(''_repeat'', VFun 0), (''_idleTimeout'', VNum 1000)]]"

text \<open>The entries of \<^verbatim>\<open>tick\<close> as a timer.\<close>

definition interval_info :: info where
  "interval_info = tick_info\<lparr>msecs := Some (VNum 1000), type := Some ''setInterval''\<rparr>"





text \<open>
  A handle (address 0) whose chain runs into a cycle that does not pass
  through the handle: 0 \<rightarrow> 1 \<rightarrow> 2 \<rightarrow> 1.
\<close>

definition cyclic_rt :: runtime where
  "cyclic_rt =
     \<lparr>heap = [[(''_idleNext'', VObj 1)],
              [(''_idleNext'', VObj 2)],
              [(''_idleNext'', VObj 1)]],
      fnName = (\<lambda>f. []), fnToString = (\<lambda>f. []),
      getFunctionLocation = (\<lambda>f. None), cardinal_highlight = (\<lambda>s. None)\<rparr>"

definition cyclic_final :: state where
  "cyclic_final = \<lparr>visited = [VObj 1, VObj 2], resolvedFns = [], resolved = [],
                    addInfo_type = None\<rparr>"

section \<open>Membership tests and \<^verbatim>\<open>addInfo\<close>\<close>

lemma indexOf_ge: "- 1 \<le> indexOf xs x"
  by (induction xs) (auto simp: Let_def)

lemma indexOf_neg_iff: "indexOf xs x = - 1 \<longleftrightarrow> x \<notin> set xs"
proof (induction xs)
  case Nil
  show ?case by simp
next
  case (Cons y ys)
  have "- 1 \<le> indexOf ys x" by (rule indexOf_ge)
  with Cons show ?case by (auto simp: Let_def)
qed

lemma not_int_nonzero: "(NOT (i::int) \<noteq> 0) \<longleftrightarrow> i \<noteq> - 1"
  by (simp add: not_int_def)

lemma indexOf_found_iff: "(NOT (indexOf xs x) \<noteq> 0) \<longleftrightarrow> x \<in> set xs"
  by (simp add: not_int_nonzero indexOf_neg_iff)

lemma wasVisited_iff: "wasVisited st h \<longleftrightarrow> h \<in> set (visited st)"
  by (simp add: wasVisited_def indexOf_found_iff)

lemma addInfo_simp:
  "addInfo rt st f =
     (if f \<in> set (resolvedFns st) then Inr (st, None)
      else (case functionInfo rt f VUndefined of
              Inl e \<Rightarrow> Inl e
            | Inr i \<Rightarrow> Inr (st\<lparr>resolvedFns := resolvedFns st @ [f], resolved := resolved st @ [i]\<rparr>,
                            Some (length (resolved st)))))"
  by (simp add: addInfo_def indexOf_found_iff Let_def split: sum.splits)

lemma addInfo_visited: "addInfo rt st f = Inr (st', r) \<Longrightarrow> visited st' = visited st"
  by (auto simp: addInfo_simp split: if_splits sum.splits)

lemma idleBody_visited: "idleBody rt st next = Inr st' \<Longrightarrow> visited st' = visited st @ [next]"
  by (auto simp: idleBody_def Let_def set_type_def set_msecs_def
           split: if_splits sum.splits option.splits prod.splits dest!: addInfo_visited)

section \<open>The chain walk ends\<close>

lemma finite_unvisited: "finite (unvisited rt st)"
  by (simp add: unvisited_def)

lemma getprop_no_props: "props rt x = [] \<Longrightarrow> getprop rt x key = VUndefined"
  by (simp add: getprop_def)

lemma walk_measure_push:
  assumes tr: "truthy nxt" and nv: "nxt \<notin> set (visited st)"
    and vis: "visited st' = visited st @ [nxt]"
  shows "walk_measure rt st' (getprop rt nxt ''_idleNext'') < walk_measure rt st nxt"
proof -
  show ?thesis
  proof (cases "\<exists>a. nxt = VObj a \<and> a < length (heap rt)")
    case True
    then obtain a where a: "nxt = VObj a" "a < length (heap rt)" by blast
    have eq: "unvisited rt st' = unvisited rt st - {a}"
      using a vis by (auto simp: unvisited_def)
    have mem: "a \<in> unvisited rt st" using a nv by (simp add: unvisited_def)
    have "card (unvisited rt st - {a}) < card (unvisited rt st)"
      using finite_unvisited mem by (rule card_Diff1_less)
    then have "card (unvisited rt st') < card (unvisited rt st)" by (simp only: eq)
    then show ?thesis using tr nv by (simp add: walk_measure_def)
  next
    case False
    then have "props rt nxt = []" by (cases nxt) auto
    then have "getprop rt nxt ''_idleNext'' = VUndefined" by (rule getprop_no_props)
    moreover have "unvisited rt st' = unvisited rt st"
      using False vis by (auto simp: unvisited_def)
    ultimately show ?thesis using tr nv by (simp add: walk_measure_def)
  qed
qed

lemma walk_measure_decreases:
  assumes "truthy nxt" and "nxt \<notin> set (visited st)"
    and "idleBody rt st nxt = Inr st'"
  shows "walk_measure rt st' (getprop rt nxt ''_idleNext'') < walk_measure rt st nxt"
  using assms(1,2) idleBody_visited [OF assms(3)] by (rule walk_measure_push)

lemma idleLoop_induct:
  assumes step: "\<And>st nxt.
      (\<And>st'. truthy nxt \<Longrightarrow> nxt \<notin> set (visited st) \<Longrightarrow> idleBody rt st nxt = Inr st'
          \<Longrightarrow> Q st' (getprop rt nxt ''_idleNext'')) \<Longrightarrow> Q st nxt"
  shows "Q st nxt"
proof (induction "walk_measure rt st nxt" arbitrary: st nxt rule: less_induct)
  case less
  show ?case
  proof (rule step)
    fix st'
    assume "truthy nxt" "nxt \<notin> set (visited st)" "idleBody rt st nxt = Inr st'"
    then have "walk_measure rt st' (getprop rt nxt ''_idleNext'') < walk_measure rt st nxt"
      by (rule walk_measure_decreases)
    then show "Q st' (getprop rt nxt ''_idleNext'')" by (rule less)
  qed
qed

lemma idleLoop_unfold:
  "idleLoop rt st nxt =
     (if truthy nxt \<and> nxt \<notin> set (visited st) then
        (case idleBody rt st nxt of
           Inl e \<Rightarrow> Some (Inl e)
         | Inr st' \<Rightarrow> idleLoop rt st' (getprop rt nxt ''_idleNext''))
      else Some (Inr st))"
  by (subst idleLoop.simps) (simp add: wasVisited_iff)

lemma idleLoop_returns: "\<exists>r. idleLoop rt st nxt = Some r"
proof (induction st nxt rule: idleLoop_induct [where rt = rt])
  case (1 st nxt)
  show ?case
  proof (cases "truthy nxt \<and> nxt \<notin> set (visited st)")
    case False
    then show ?thesis by (subst idleLoop_unfold) auto
  next
    case True
    show ?thesis
    proof (cases "idleBody rt st nxt")
      case (Inl e)
      with True show ?thesis by (subst idleLoop_unfold) simp
    next
      case (Inr st')
      with True 1 have "\<exists>r. idleLoop rt st' (getprop rt nxt ''_idleNext'') = Some r" by blast
      with True Inr show ?thesis by (subst idleLoop_unfold) simp
    qed
  qed
qed

lemma idleLoop_invariant:
  assumes step: "\<And>s n s'. P s \<Longrightarrow> n \<notin> set (visited s) \<Longrightarrow> truthy n \<Longrightarrow> idleBody rt s n = Inr s' \<Longrightarrow> P s'"
  shows "P st \<Longrightarrow> idleLoop rt st nxt = Some (Inr st') \<Longrightarrow> P st'"
proof (induction st nxt rule: idleLoop_induct [where rt = rt])
  case (1 st nxt)
  show ?case
  proof (cases "truthy nxt \<and> nxt \<notin> set (visited st)")
    case False
    with "1.prems" show ?thesis by (subst (asm) idleLoop_unfold) auto
  next
    case True
    from "1.prems"(2) True obtain s1 where
      b: "idleBody rt st nxt = Inr s1" and l: "idleLoop rt s1 (getprop rt nxt ''_idleNext'') = Some (Inr st')"
      by (subst (asm) idleLoop_unfold) (auto split: sum.splits)
    from "1.prems"(1) True b have "P s1" by (blast intro: step)
    with True b l show ?thesis by (blast intro: "1.IH")
  qed
qed

lemma idleLoop_distinct:
  "distinct (visited st) \<Longrightarrow> idleLoop rt st nxt = Some (Inr st') \<Longrightarrow> distinct (visited st')"
  by (erule idleLoop_invariant [rotated]) (auto dest: idleBody_visited)


section \<open>The net effect of one step\<close>

lemma functionInfo_fresh:
  "functionInfo rt v h = Inr i \<Longrightarrow> fn i = v \<and> msecs i = None \<and> type i = None \<and> fd i = None"
  by (cases v) (auto simp: Let_def split: if_splits option.splits)

lemma idleBody_plain:
  assumes "\<not> isFunction (getprop rt nxt ''_repeat'')"
    and "\<not> isFunction (getprop rt nxt ''_wrappedCallback'')"
    and "\<not> hasOwnProperty rt nxt ''_onTimeout''"
  shows "idleBody rt st nxt = Inr (st\<lparr>visited := visited st @ [nxt]\<rparr>)"
  using assms by (simp add: idleBody_def)

lemma idleBody_qualifying:
  assumes "isFunction (getprop rt nxt ''_repeat'') \<or> isFunction (getprop rt nxt ''_wrappedCallback'')
           \<or> hasOwnProperty rt nxt ''_onTimeout''"
  shows "idleBody rt st nxt =
     (let f = (if isFunction (getprop rt nxt ''_repeat'') then getprop rt nxt ''_repeat''
               else if isFunction (getprop rt nxt ''_wrappedCallback'') then getprop rt nxt ''_wrappedCallback''
               else getprop rt nxt ''_onTimeout'')
      in if f \<in> set (resolvedFns st) then Inl TypeError
         else (case functionInfo rt f VUndefined of
                 Inl e \<Rightarrow> Inl e
               | Inr i \<Rightarrow>
                   Inr (st\<lparr>visited := visited st @ [nxt],
                           resolvedFns := resolvedFns st @ [f],
                           resolved := resolved st @
                             [i\<lparr>msecs := Some (getprop rt nxt ''_idleTimeout''),
                                type := Some (if isFunction (getprop rt nxt ''_wrappedCallback'')
                                                 \<or> isFunction (getprop rt nxt ''_repeat'')
                                              then ''setInterval'' else ''setTimeout'')\<rparr>]\<rparr>)))"
  using assms
  by (auto simp: idleBody_def addInfo_simp Let_def set_type_def set_msecs_def split: sum.splits)

lemma addHandleFn_simp:
  "addHandleFn rt hh st key =
     (let v = getprop rt hh key; d = getprop rt hh ''fd''
      in if \<not> isFunction v then Inr st
         else if v \<in> set (resolvedFns st) then (if truthy d then Inl TypeError else Inr st)
         else (case functionInfo rt v VUndefined of
                 Inl e \<Rightarrow> Inl e
               | Inr i \<Rightarrow>
                  (let st1 = st\<lparr>resolvedFns := resolvedFns st @ [v]\<rparr>
                   in if \<not> truthy d then Inr (st1\<lparr>resolved := resolved st @ [i]\<rparr>)
                      else if key = ''onconnection''
                        then Inr (st1\<lparr>resolved := resolved st @ [i\<lparr>type := Some ''net connection'', fd := Some d\<rparr>]\<rparr>)
                      else if key = ''onread''
                        then Inr (st1\<lparr>resolved := resolved st @ [i\<lparr>type := Some ''net client connection'', fd := Some d\<rparr>]\<rparr>)
                      else Inr (st1\<lparr>resolved := resolved st @ [i\<lparr>fd := Some d\<rparr>],
                                     addInfo_type := Some ''unknown''\<rparr>))))"
  by (auto simp: addHandleFn_def addInfo_simp Let_def set_type_def set_fd_def split: sum.splits)

section \<open>A chain of three nodes\<close>



section \<open>The walk over the whole chain\<close>










section \<open>Entries without a descriptor\<close>

lemma idleBody_resolved:
  assumes "idleBody rt s n = Inr s'"
  shows "resolved s' = resolved s \<or>
         (\<exists>i t. resolved s' = resolved s @ [i\<lparr>msecs := Some (getprop rt n ''_idleTimeout''), type := Some t\<rparr>]
                \<and> fd i = None \<and> (t = ''setInterval'' \<or> t = ''setTimeout''))"
proof (cases "isFunction (getprop rt n ''_repeat'') \<or> isFunction (getprop rt n ''_wrappedCallback'')
           \<or> hasOwnProperty rt n ''_onTimeout''")
  case True
  let ?f = "if isFunction (getprop rt n ''_repeat'') then getprop rt n ''_repeat''
            else if isFunction (getprop rt n ''_wrappedCallback'') then getprop rt n ''_wrappedCallback''
            else getprop rt n ''_onTimeout''"
  let ?t = "if isFunction (getprop rt n ''_wrappedCallback'') \<or> isFunction (getprop rt n ''_repeat'')
            then ''setInterval'' else ''setTimeout''"
  from assms obtain i where i: "functionInfo rt ?f VUndefined = Inr i"
    and s': "resolved s' = resolved s @ [i\<lparr>msecs := Some (getprop rt n ''_idleTimeout''), type := Some ?t\<rparr>]"
    unfolding idleBody_qualifying [OF True] Let_def
    by (auto split: if_splits sum.splits)
  from i have "fd i = None" by (simp add: functionInfo_fresh)
  moreover have "?t = ''setInterval'' \<or> ?t = ''setTimeout''" by simp
  ultimately show ?thesis using s' by blast
next
  case False
  then have "idleBody rt s n = Inr (s\<lparr>visited := visited s @ [n]\<rparr>)"
    by (simp add: idleBody_plain)
  with assms show ?thesis by auto
qed

lemma idleBody_timer_entries:
  assumes "\<forall>i\<in>set (resolved s). timer_entry i" and "idleBody rt s n = Inr s'"
  shows "\<forall>i\<in>set (resolved s'). timer_entry i"
proof -
  from idleBody_resolved [OF assms(2)] show ?thesis
  proof
    assume "resolved s' = resolved s"
    with assms(1) show ?thesis by simp
  next
    assume "\<exists>i t. resolved s' = resolved s @ [i\<lparr>msecs := Some (getprop rt n ''_idleTimeout''), type := Some t\<rparr>]
                \<and> fd i = None \<and> (t = ''setInterval'' \<or> t = ''setTimeout'')"
    then obtain i t where
      r: "resolved s' = resolved s @ [i\<lparr>msecs := Some (getprop rt n ''_idleTimeout''), type := Some t\<rparr>]"
      and f: "fd i = None" and t: "t = ''setInterval'' \<or> t = ''setTimeout''"
      by blast
    from f t have "timer_entry (i\<lparr>msecs := Some (getprop rt n ''_idleTimeout''), type := Some t\<rparr>)"
      unfolding timer_entry_def by simp
    with assms(1) r show ?thesis by simp
  qed
qed

lemma idleLoop_timer_entries:
  assumes "idleLoop rt init_state nxt = Some (Inr st)"
  shows "\<forall>i\<in>set (resolved st). timer_entry i"
proof -
  have "\<forall>i\<in>set (resolved init_state). timer_entry i" by (simp add: init_state_def)
  then show ?thesis
    using assms
    by (rule idleLoop_invariant [where P = "\<lambda>s. \<forall>i\<in>set (resolved s). timer_entry i", rotated])
       (rule idleBody_timer_entries)
qed

lemma addHandleFn_falsy_fd:
  assumes "\<not> truthy (getprop rt hh ''fd'')" and "addHandleFn rt hh st key = Inr st'"
  shows "\<exists>new. resolved st' = resolved st @ new \<and> addInfo_type st' = addInfo_type st \<and>
           (\<forall>i\<in>set new. fd i = None \<and> type i = None)"
  using assms
  by (auto simp: addHandleFn_simp Let_def split: if_splits sum.splits dest!: functionInfo_fresh)

lemma forEach_addHandleFn_falsy_fd:
  assumes "\<not> truthy (getprop rt hh ''fd'')"
  shows "forEach_addHandleFn rt hh st ks = Inr st' \<Longrightarrow>
         \<exists>new. resolved st' = resolved st @ new \<and> addInfo_type st' = addInfo_type st \<and>
           (\<forall>i\<in>set new. fd i = None \<and> type i = None)"
proof (induction ks arbitrary: st)
  case Nil
  then show ?case by simp
next
  case (Cons key ks)
  from Cons.prems obtain s1 where
    a: "addHandleFn rt hh st key = Inr s1" and r: "forEach_addHandleFn rt hh s1 ks = Inr st'"
    by (auto split: sum.splits)
  from addHandleFn_falsy_fd [OF assms a] obtain new1 where
    n1: "resolved s1 = resolved st @ new1" "addInfo_type s1 = addInfo_type st"
        "\<forall>i\<in>set new1. fd i = None \<and> type i = None"
    by blast
  from Cons.IH [OF r] obtain new2 where
    n2: "resolved st' = resolved s1 @ new2" "addInfo_type st' = addInfo_type s1"
        "\<forall>i\<in>set new2. fd i = None \<and> type i = None"
    by blast
  from n1 n2 have "resolved st' = resolved st @ (new1 @ new2)" by simp
  moreover from n1 n2 have "addInfo_type st' = addInfo_type st" by simp
  moreover from n1 n2 have "\<forall>i\<in>set (new1 @ new2). fd i = None \<and> type i = None" by auto
  ultimately show ?case by blast
qed

section \<open>Concatenation over the handles\<close>

lemma fold_pushHandle: "fold pushHandle rs acc = acc @ rs"
  by (induction rs arbitrary: acc) (simp_all add: pushHandle_def)

lemma forEach_resolveCurrentHandle_iff:
  "forEach_resolveCurrentHandle rt acc hs = Some (Inr out) \<longleftrightarrow>
     (\<exists>rs. list_all2 (\<lambda>h r. resolveHandle rt h = Some (Inr r)) hs rs \<and> out = acc @ concat rs)"
proof (induction hs arbitrary: acc)
  case Nil
  show ?case by auto
next
  case (Cons h hs)
  let ?P = "\<lambda>h r. resolveHandle rt h = Some (Inr r)"
  have split: "(\<exists>rs. list_all2 ?P (h # hs) rs \<and> out = acc @ concat rs) \<longleftrightarrow>
               (\<exists>r rs. ?P h r \<and> list_all2 ?P hs rs \<and> out = (acc @ r) @ concat rs)"
  proof
    assume "\<exists>rs. list_all2 ?P (h # hs) rs \<and> out = acc @ concat rs"
    then obtain rs where a: "list_all2 ?P (h # hs) rs" and o: "out = acc @ concat rs" by blast
    from a obtain r rs' where "rs = r # rs'" "?P h r" "list_all2 ?P hs rs'"
      by (cases rs) simp_all
    with o show "\<exists>r rs. ?P h r \<and> list_all2 ?P hs rs \<and> out = (acc @ r) @ concat rs"
      by auto
  next
    assume "\<exists>r rs. ?P h r \<and> list_all2 ?P hs rs \<and> out = (acc @ r) @ concat rs"
    then obtain r rs where "?P h r" "list_all2 ?P hs rs" "out = (acc @ r) @ concat rs" by blast
    then have "list_all2 ?P (h # hs) (r # rs) \<and> out = acc @ concat (r # rs)" by simp
    then show "\<exists>rs. list_all2 ?P (h # hs) rs \<and> out = acc @ concat rs" by blast
  qed
  show ?case
  proof (cases "\<exists>r. resolveHandle rt h = Some (Inr r)")
    case True
    then obtain r where r: "resolveHandle rt h = Some (Inr r)" by blast
    then have "forEach_resolveCurrentHandle rt acc (h # hs)
               = forEach_resolveCurrentHandle rt (acc @ r) hs"
      by (simp add: fold_pushHandle)
    then have "forEach_resolveCurrentHandle rt acc (h # hs) = Some (Inr out) \<longleftrightarrow>
               (\<exists>rs. list_all2 ?P hs rs \<and> out = (acc @ r) @ concat rs)"
      by (simp only: Cons.IH)
    also have "\<dots> \<longleftrightarrow> (\<exists>r rs. ?P h r \<and> list_all2 ?P hs rs \<and> out = (acc @ r) @ concat rs)"
      using r by auto
    finally show ?thesis by (simp only: split)
  next
    case False
    then have "forEach_resolveCurrentHandle rt acc (h # hs) \<noteq> Some (Inr out)"
      by (auto split: option.splits sum.splits)
    moreover from False
    have "\<not> (\<exists>r rs. ?P h r \<and> list_all2 ?P hs rs \<and> out = (acc @ r) @ concat rs)"
      by blast
    ultimately show ?thesis by (simp only: split)
  qed
qed

section \<open>The claims\<close>

text \<open>
  Claim C1 says that a callable found twice while one handle is processed
  yields one entry and that the processing completes.  \<^verbatim>\<open>addInfo\<close> does
  return early on the second find, but its callers then assign a property of
  the \<^verbatim>\<open>undefined\<close> it returned.  Two intervals that repeat the same
  function, and a socket record with a descriptor that holds one callback
  under two keys, both end in a \<^verbatim>\<open>TypeError\<close>; only without a
  descriptor does the second find pass and leave the single entry.
\<close>

theorem duplicate_callable_raises:
  "resolveHandle (example_rt two_intervals_heap) (VObj 0) = Some (Inl TypeError) \<and>
   resolveHandle (example_rt (two_fields_heap (VNum 7))) (VObj 0) = Some (Inl TypeError) \<and>
   resolveHandle (example_rt (two_fields_heap VUndefined)) (VObj 0) = Some (Inr [tick_info])"
  by code_simp

text \<open>
  Claim C2 says that \<^verbatim>\<open>resolveHandle\<close> raises on no handle.  It raises
  on a timer whose callback is anonymous and has no location
  (\<^verbatim>\<open>location.inferredName\<close> is read although \<^verbatim>\<open>location\<close> is
  falsy), and on a node whose \<^verbatim>\<open>_onTimeout\<close> is \<^verbatim>\<open>null\<close>.
\<close>

theorem unlocated_callable_raises:
  "resolveHandle (example_rt (no_location_heap (VFun 3))) (VObj 0) = Some (Inl TypeError) \<and>
   resolveHandle (example_rt (no_location_heap VNull)) (VObj 0) = Some (Inl TypeError)"
  by code_simp



text \<open>
  Claim C4 says that, on a socket record with a descriptor, a callable under
  a key other than \<^verbatim>\<open>onconnection\<close> and \<^verbatim>\<open>onread\<close> yields an entry
  of kind unknown.  The \<^verbatim>\<open>default\<close> branch assigns \<^verbatim>\<open>addInfo.type\<close>,
  a property of the function \<^verbatim>\<open>addInfo\<close>, and not \<^verbatim>\<open>addedInfo.type\<close>:
  the entry gets the descriptor and no \<^verbatim>\<open>type\<close> at all.
\<close>

theorem unrecognised_field_has_no_type:
  "resolveHandle (example_rt (one_field_heap (VNum 7) ''oncomplete'')) (VObj 0)
     = Some (Inr [tick_info\<lparr>fd := Some (VNum 7)\<rparr>]) \<and>
   type (tick_info\<lparr>fd := Some (VNum 7)\<rparr>) = None \<and>
   addHandleFn (example_rt (one_field_heap (VNum 7) ''oncomplete'')) (VObj 1) init_state ''oncomplete''
     = Inr \<lparr>visited = [], resolvedFns = [VFun 0], resolved = [tick_info\<lparr>fd := Some (VNum 7)\<rparr>],
            addInfo_type = Some ''unknown''\<rparr>"
  by code_simp

text \<open>
  Claim C5 says that \<^verbatim>\<open>hookSetInterval\<close> leaves \<^verbatim>\<open>timers.setInterval\<close>
  alone on every version from 1.6.2 on.  The test compares the three numbers
  one by one, each against its own bound, so that version 2.0.0, which is
  above the threshold, fails it on its minor number and is hooked.
\<close>

theorem newer_version_is_hooked:
  "spec_version_at_least_1_6_2 ''v2.0.0'' \<and>
   \<not> versionGreaterEqualOneSixTwo ''v2.0.0'' \<and>
   hookSetInterval ''v2.0.0'' Builtin = SetIntervalHook Builtin"
  by code_simp

text \<open>
  Claim C6.  Whatever the heap and the handle, and so in particular when the
  chain of \<^verbatim>\<open>_idleNext\<close> links runs into a cycle, the walk of
  \<^verbatim>\<open>resolveHandle\<close> comes to an end (as does \<^verbatim>\<open>resolveHandle\<close>
  itself), and when it ends normally the nodes it has visited are pairwise
  different: no node is visited twice.
\<close>

theorem chain_walk_terminates:
  "(\<exists>r. resolveHandle rt hdl = Some r) \<and>
   (\<exists>r. idleLoop rt init_state (getprop rt hdl ''_idleNext'') = Some r \<and>
        (\<forall>st'. r = Inr st' \<longrightarrow> distinct (visited st')))"
proof -
  obtain r where r: "idleLoop rt init_state (getprop rt hdl ''_idleNext'') = Some r"
    using idleLoop_returns by blast
  have d: "\<forall>st'. r = Inr st' \<longrightarrow> distinct (visited st')"
    using r idleLoop_distinct [of init_state rt] by (auto simp: init_state_def)
  have "\<exists>q. resolveHandle rt hdl = Some q"
    using r by (simp add: resolveHandle_def split: sum.splits)
  with r d show ?thesis by blast
qed

theorem chain_walk_terminates_witness:
  "idleLoop cyclic_rt init_state (getprop cyclic_rt (VObj 0) ''_idleNext'') = Some (Inr cyclic_final)
   \<and> distinct (visited cyclic_final)"
proof -
  have e: "idleLoop cyclic_rt init_state (getprop cyclic_rt (VObj 0) ''_idleNext'')
           = Some (Inr cyclic_final)"
    by code_simp
  from chain_walk_terminates [of cyclic_rt "VObj 0"] obtain r where
    r: "idleLoop cyclic_rt init_state (getprop cyclic_rt (VObj 0) ''_idleNext'') = Some r"
    and d: "\<forall>st'. r = Inr st' \<longrightarrow> distinct (visited st')"
    by blast
  from r e have "r = Inr cyclic_final" by simp
  with d have "distinct (visited cyclic_final)" by blast
  with e show ?thesis by blast
qed

text \<open>
  Claim C7 as stated fails: when the renderer fails on an anonymous function,
  \<^verbatim>\<open>highlighted\<close> is not \<^verbatim>\<open>source\<close> but the text that was handed to
  the renderer, \<^verbatim>\<open>name + ' = ' + source\<close>.
\<close>

theorem fallback_is_not_the_source:
  "functionInfo (example_rt []) (VFun 1) VUndefined = Inr onData_info \<and>
   cardinal_highlight (example_rt []) ''onData = function () {}'' = None \<and>
   source onData_info = ''function () {}'' \<and>
   highlighted onData_info = ''onData = function () {}'' \<and>
   highlighted onData_info \<noteq> source onData_info"
  by code_simp

text \<open>
  Claim C7, amended.  Let \<open>input\<close> be the text handed to the renderer:
  \<^verbatim>\<open>source\<close> for a function with a declared name and
  \<^verbatim>\<open>name + ' = ' + source\<close> for an anonymous one.  When the renderer
  fails, \<^verbatim>\<open>highlighted\<close> is \<open>input\<close> verbatim; \<^verbatim>\<open>highlighted\<close> is
  not empty when \<^verbatim>\<open>source\<close> is not, unless the renderer itself succeeds
  with the empty text; and whatever the renderer does, failing included,
  \<^verbatim>\<open>functionInfo\<close> still returns its entry.
\<close>

theorem rendered_source_fallback:
  assumes "functionInfo rt (VFun f) hdl = Inr i"
    and "input = (if fnName rt f = [] then name i @ '' = '' @ source i else source i)"
  shows "(cardinal_highlight rt input = None \<longrightarrow> highlighted i = input) \<and>
         (source i \<noteq> [] \<and> cardinal_highlight rt input \<noteq> Some [] \<longrightarrow> highlighted i \<noteq> []) \<and>
         (\<forall>r. \<exists>i'. functionInfo (rt\<lparr>cardinal_highlight := r\<rparr>) (VFun f) hdl = Inr i')"
  using assms
  by (auto simp: Let_def highlightSource_def split: option.splits if_splits)

theorem rendered_source_fallback_witness:
  "functionInfo (example_rt []) (VFun 1) VUndefined = Inr onData_info \<and>
   cardinal_highlight (example_rt []) ''onData = function () {}'' = None \<and>
   highlighted onData_info = ''onData = function () {}'' \<and>
   highlighted onData_info \<noteq> []"
proof -
  have e: "functionInfo (example_rt []) (VFun 1) VUndefined = Inr onData_info" by code_simp
  have i: "''onData = function () {}''
           = (if fnName (example_rt []) 1 = [] then name onData_info @ '' = '' @ source onData_info
              else source onData_info)"
    by code_simp
  have c: "cardinal_highlight (example_rt []) ''onData = function () {}'' = None" by code_simp
  have s: "source onData_info \<noteq> []" by code_simp
  from rendered_source_fallback [OF e i] c s
  have "highlighted onData_info = ''onData = function () {}'' \<and> highlighted onData_info \<noteq> []"
    by simp
  with e c show ?thesis by blast
qed

text \<open>
  Claim C8.  For a function without a declared name, \<^verbatim>\<open>functionInfo\<close>
  returns an entry whenever the runtime has a location for it, and the
  \<^verbatim>\<open>name\<close> of every entry it returns is the inferred name of the
  location when that is not empty and \<^verbatim>\<open>__unknown_function_name__\<close>
  otherwise; it is never empty.
\<close>

theorem anonymous_name:
  assumes "fnName rt f = []"
  shows "(\<forall>loc. getFunctionLocation rt f = Some loc \<longrightarrow> (\<exists>i. functionInfo rt (VFun f) hdl = Inr i)) \<and>
         (\<forall>i. functionInfo rt (VFun f) hdl = Inr i \<longrightarrow>
            (\<exists>loc. getFunctionLocation rt f = Some loc \<and>
               name i = (if inferredName loc \<noteq> [] then inferredName loc
                         else ''__unknown_function_name__'')) \<and>
            name i \<noteq> [])"
  using assms by (auto simp: Let_def split: option.splits)

theorem anonymous_name_witness:
  "fnName (example_rt []) 1 = [] \<and>
   functionInfo (example_rt []) (VFun 1) VUndefined = Inr onData_info \<and>
   name onData_info = ''onData'' \<and>
   fnName (example_rt []) 2 = [] \<and>
   (\<exists>i. functionInfo (example_rt []) (VFun 2) VUndefined = Inr i \<and>
        name i = ''__unknown_function_name__'')"
proof -
  have a1: "fnName (example_rt []) 1 = []" by code_simp
  have a2: "fnName (example_rt []) 2 = []" by code_simp
  have e1: "functionInfo (example_rt []) (VFun 1) VUndefined = Inr onData_info" by code_simp
  have l1: "getFunctionLocation (example_rt []) 1
            = Some \<lparr>file_name = ''app.js'', line = 3, column = 22, inferredName = ''onData''\<rparr>"
    by code_simp
  have l2: "getFunctionLocation (example_rt []) 2
            = Some \<lparr>file_name = ''app.js'', line = 5, column = 11, inferredName = []\<rparr>"
    by code_simp
  from anonymous_name [OF a1, of VUndefined] e1 l1 have n1: "name onData_info = ''onData''"
    by auto
  from anonymous_name [OF a2, of VUndefined] l2
  have "\<exists>i. functionInfo (example_rt []) (VFun 2) VUndefined = Inr i \<and>
        name i = ''__unknown_function_name__''"
    by auto
  with a1 a2 e1 n1 show ?thesis by blast
qed

text \<open>
  Claim C9.  \<^verbatim>\<open>resolveHandles\<close> returns a list exactly when
  \<^verbatim>\<open>resolveHandle\<close> returns one on every handle, and the list is then the
  concatenation of those, in the order of the handles; on no handles it is the
  empty list, and \<^verbatim>\<open>activeHandles\<close> agrees with it.  Nothing is removed
  across handles: two handles that resolve to the same function give two
  entries.
\<close>

theorem resolveHandles_concat:
  "(resolveHandles rt hs = Some (Inr out) \<longleftrightarrow>
      (\<exists>rs. list_all2 (\<lambda>h r. resolveHandle rt h = Some (Inr r)) hs rs \<and> out = concat rs)) \<and>
   resolveHandles rt [] = Some (Inr []) \<and>
   activeHandles rt [] = Some (Inr []) \<and>
   activeHandles rt hs = resolveHandles rt hs"
proof -
  have 1: "resolveHandles rt hs = Some (Inr out) \<longleftrightarrow>
      (\<exists>rs. list_all2 (\<lambda>h r. resolveHandle rt h = Some (Inr r)) hs rs \<and> out = concat rs)"
    unfolding resolveHandles_def forEach_resolveCurrentHandle_iff by simp
  have 2: "resolveHandles rt [] = Some (Inr [])" by (simp add: resolveHandles_def)
  have 3: "activeHandles rt hs = resolveHandles rt hs"
    by (cases hs) (simp_all add: activeHandles_def resolveHandles_def)
  have 4: "activeHandles rt [] = Some (Inr [])" by (simp add: activeHandles_def)
  from 1 2 3 4 show ?thesis by blast
qed

theorem resolveHandles_concat_witness:
  "resolveHandle (example_rt two_handles_heap) (VObj 0) = Some (Inr [interval_info]) \<and>
   resolveHandle (example_rt two_handles_heap) (VObj 2) = Some (Inr [interval_info]) \<and>
   resolveHandles (example_rt two_handles_heap) [VObj 0, VObj 2]
     = Some (Inr [interval_info, interval_info])"
proof -
  have r0: "resolveHandle (example_rt two_handles_heap) (VObj 0) = Some (Inr [interval_info])"
    by code_simp
  have r2: "resolveHandle (example_rt two_handles_heap) (VObj 2) = Some (Inr [interval_info])"
    by code_simp
  from r0 r2 have "list_all2 (\<lambda>h r. resolveHandle (example_rt two_handles_heap) h = Some (Inr r))
                     [VObj 0, VObj 2] [[interval_info], [interval_info]]"
    by simp
  then have "\<exists>rs. list_all2 (\<lambda>h r. resolveHandle (example_rt two_handles_heap) h = Some (Inr r))
                     [VObj 0, VObj 2] rs \<and> [interval_info, interval_info] = concat rs"
    by (intro exI [of _ "[[interval_info], [interval_info]]"]) simp
  with resolveHandles_concat [of "example_rt two_handles_heap" "[VObj 0, VObj 2]"
         "[interval_info, interval_info]"]
  have "resolveHandles (example_rt two_handles_heap) [VObj 0, VObj 2]
          = Some (Inr [interval_info, interval_info])"
    by blast
  with r0 r2 show ?thesis by blast
qed

text \<open>
  Claim C10.  When the \<^verbatim>\<open>fd\<close> of the socket record is falsy (absent,
  or the descriptor \<open>0\<close>), the entries that \<^verbatim>\<open>resolveHandle\<close> returns are
  those of the chain walk followed by the entries added for the callable fields
  of the socket record, and the latter have neither \<^verbatim>\<open>fd\<close> nor
  \<^verbatim>\<open>type\<close>; no entry at all has an \<^verbatim>\<open>fd\<close> or one of the two
  socket types.
\<close>

theorem falsy_descriptor_not_attached:
  assumes falsy: "\<not> truthy (getprop rt (getprop rt hdl ''_handle'') ''fd'')"
    and res: "resolveHandle rt hdl = Some (Inr out)"
  shows "\<exists>walk new. idleLoop rt init_state (getprop rt hdl ''_idleNext'') = Some (Inr walk) \<and>
           out = resolved walk @ new \<and>
           (\<forall>i\<in>set new. fd i = None \<and> type i = None) \<and>
           (\<forall>i\<in>set out. fd i = None \<and> type i \<noteq> Some ''net connection''
                           \<and> type i \<noteq> Some ''net client connection'')"
proof -
  from res obtain walk where
    w: "idleLoop rt init_state (getprop rt hdl ''_idleNext'') = Some (Inr walk)"
    by (auto simp: resolveHandle_def split: if_splits option.splits sum.splits)
  have t: "\<forall>i\<in>set (resolved walk). timer_entry i"
    using w by (rule idleLoop_timer_entries)
  obtain new where
    n: "out = resolved walk @ new" and nf: "\<forall>i\<in>set new. fd i = None \<and> type i = None"
  proof (cases "truthy (getprop rt hdl ''_handle'')")
    case False
    with res w have "out = resolved walk @ []"
      by (auto simp: resolveHandle_def split: if_splits)
    then show ?thesis by (rule that) simp
  next
    case True
    with res w obtain st' where
      f: "forEach_addHandleFn rt (getprop rt hdl ''_handle'') walk
            (keys rt (getprop rt hdl ''_handle'')) = Inr st'" and o: "out = resolved st'"
      by (auto simp: resolveHandle_def split: if_splits sum.splits)
    from forEach_addHandleFn_falsy_fd [OF falsy f] obtain new where
      "resolved st' = resolved walk @ new" "\<forall>i\<in>set new. fd i = None \<and> type i = None"
      by blast
    with o show ?thesis by (intro that [of new]) simp_all
  qed
  have "\<forall>i\<in>set out. fd i = None \<and> type i \<noteq> Some ''net connection''
                           \<and> type i \<noteq> Some ''net client connection''"
  proof
    fix i assume "i \<in> set out"
    with n have "i \<in> set (resolved walk) \<or> i \<in> set new" by simp
    then show "fd i = None \<and> type i \<noteq> Some ''net connection''
                 \<and> type i \<noteq> Some ''net client connection''"
    proof
      assume "i \<in> set (resolved walk)"
      with t have "timer_entry i" by simp
      then show ?thesis unfolding timer_entry_def by auto
    next
      assume "i \<in> set new"
      with nf have "fd i = None \<and> type i = None" by simp
      then show ?thesis by simp
    qed
  qed
  with w n nf show ?thesis by (intro exI [of _ walk] exI [of _ new]) simp
qed

theorem falsy_descriptor_witness:
  "getprop (example_rt (one_field_heap (VNum 0) ''onconnection''))
     (getprop (example_rt (one_field_heap (VNum 0) ''onconnection'')) (VObj 0) ''_handle'') ''fd''
     = VNum 0 \<and>
   resolveHandle (example_rt (one_field_heap (VNum 0) ''onconnection'')) (VObj 0)
     = Some (Inr [tick_info]) \<and>
   fd tick_info = None \<and> type tick_info \<noteq> Some ''net connection''"
proof -
  let ?rt = "example_rt (one_field_heap (VNum 0) ''onconnection'')"
  have d: "getprop ?rt (getprop ?rt (VObj 0) ''_handle'') ''fd'' = VNum 0" by code_simp
  then have f: "\<not> truthy (getprop ?rt (getprop ?rt (VObj 0) ''_handle'') ''fd'')" by simp
  have r: "resolveHandle ?rt (VObj 0) = Some (Inr [tick_info])" by code_simp
  from falsy_descriptor_not_attached [OF f r]
  have "\<forall>i\<in>set [tick_info]. fd i = None \<and> type i \<noteq> Some ''net connection''
                           \<and> type i \<noteq> Some ''net client connection''"
    by blast
  then have "fd tick_info = None \<and> type tick_info \<noteq> Some ''net connection''" by simp
  with d r show ?thesis by blast
qed

end
